theory Spec2Isabelle
  imports Main "HOL-Library.Word"
begin

unbundle bit_operations_syntax

section \<open>CAN-FD to Ethernet gateway: data model\<close>

type_synonym u8 = "8 word"
type_synonym u32 = "32 word"
type_synonym u64 = "64 word"

text \<open>
  Modelled from the spec: \<^verbatim>\<open>struct canfd_frame\<close> is declared in the system header
  \<^verbatim>\<open><linux/can.h>\<close>, which is not part of the repository. The record holds the four
  members that \<^verbatim>\<open>run_gateway\<close> reads: the 32-bit identifier, the 8-bit length, the
  8-bit flag set and the payload array \<^verbatim>\<open>data[64]\<close>. The members carry the prefix
  \<open>frame_\<close> because the packet below has members of the same names.
\<close>

record canfd_frame =
  frame_can_id :: u32
  frame_len :: u8
  frame_flags :: u8
  frame_data :: "u8 list"

text \<open>\<^verbatim>\<open>struct GatewayPacket\<close> (main.cpp, lines 22 to 30).\<close>

record GatewayPacket =
  timestamp_ns :: u64
  can_id :: u32
  dlc :: u8
  flags :: u8
  data :: "u8 list"

text \<open>
  A C array \<^verbatim>\<open>uint8_t data[64]\<close> always holds 64 bytes. Lists do not carry their
  length in the type, so it is a well-formedness condition on the two records.
\<close>

definition wf_frame :: "canfd_frame \<Rightarrow> bool" where
  "wf_frame f \<longleftrightarrow> length (frame_data f) = 64"

definition wf_packet :: "GatewayPacket \<Rightarrow> bool" where
  "wf_packet p \<longleftrightarrow> length (data p) = 64"

text \<open>
  The constants that main.cpp takes from system headers (\<^verbatim>\<open><linux/can.h>\<close>,
  \<^verbatim>\<open><cerrno>\<close>) are parameters of the model: the flag masks \<^verbatim>\<open>CANFD_BRS\<close> and
  \<^verbatim>\<open>CANFD_ESI\<close>, the error number \<^verbatim>\<open>EINTR\<close> and \<^verbatim>\<open>sizeof(struct canfd_frame)\<close>.
  \<open>linux_consts\<close> holds the values of the Linux headers and is used where a concrete
  run is evaluated.
\<close>

record sys_consts =
  CANFD_BRS :: u8
  CANFD_ESI :: u8
  EINTR :: int
  sizeof_frame :: nat

definition linux_consts :: sys_consts where
  "linux_consts = \<lparr>CANFD_BRS = 0x01, CANFD_ESI = 0x02, EINTR = 4, sizeof_frame = 72\<rparr>"

section \<open>Byte copies\<close>

text \<open>
  \<^verbatim>\<open>memset\<close> and \<^verbatim>\<open>memcpy\<close> on byte arrays. Writing or reading past the end of
  an array is undefined behaviour in C; the model makes it the value \<open>OutOfBounds\<close>.
  It stands for what the C program does there, not for a check made by the code.
\<close>

datatype fault = OutOfBounds

definition memset_bytes :: "u8 list \<Rightarrow> u8 \<Rightarrow> nat \<Rightarrow> fault + u8 list" where
  "memset_bytes dst c n =
     (if n \<le> length dst then Inr (replicate n c @ drop n dst) else Inl OutOfBounds)"

definition memcpy_bytes :: "u8 list \<Rightarrow> u8 list \<Rightarrow> nat \<Rightarrow> fault + u8 list" where
  "memcpy_bytes dst src n =
     (if n \<le> length dst \<and> n \<le> length src then Inr (take n src @ drop n dst)
      else Inl OutOfBounds)"

section \<open>Frame translation\<close>

text \<open>
  Lines 115 to 119 of \<^verbatim>\<open>run_gateway\<close>: the metadata. The flag byte is cleared and a
  bit is set for each of the two masks that the frame's flags meet. \<^verbatim>\<open>frame.flags\<close>
  is an 8-bit value, so only the low eight bits of a mask can take part in the test.
\<close>

definition copy_metadata :: "sys_consts \<Rightarrow> canfd_frame \<Rightarrow> GatewayPacket \<Rightarrow> GatewayPacket" where
  "copy_metadata c f pkt =
     (let pkt = pkt\<lparr>can_id := frame_can_id f\<rparr>;
          pkt = pkt\<lparr>dlc := frame_len f\<rparr>;
          pkt = pkt\<lparr>flags := 0\<rparr>;
          pkt = (if frame_flags f AND CANFD_BRS c \<noteq> 0 then pkt\<lparr>flags := flags pkt OR 0x01\<rparr> else pkt);
          pkt = (if frame_flags f AND CANFD_ESI c \<noteq> 0 then pkt\<lparr>flags := flags pkt OR 0x02\<rparr> else pkt)
      in pkt)"

text \<open>
  Lines 122 to 125: the payload. The 64 bytes of the buffer are zeroed, then
  \<^verbatim>\<open>frame.len\<close> bytes are copied when the length is positive. No comparison of the
  length with 64 is made.
\<close>

definition copy_payload :: "canfd_frame \<Rightarrow> u8 list \<Rightarrow> fault + u8 list" where
  "copy_payload f buf =
     (if frame_len f > 0 then memcpy_bytes buf (frame_data f) (unat (frame_len f))
      else Inr buf)"

definition copy_data :: "canfd_frame \<Rightarrow> u8 list \<Rightarrow> fault + u8 list" where
  "copy_data f buf =
     (case memset_bytes buf 0 64 of
        Inl e \<Rightarrow> Inl e
      | Inr zeroed \<Rightarrow> copy_payload f zeroed)"

text \<open>
  Lines 112 to 125 as one function of the frame, the timestamp and the previous contents
  of the reused packet buffer.
\<close>

definition translate :: "sys_consts \<Rightarrow> canfd_frame \<Rightarrow> u64 \<Rightarrow> GatewayPacket \<Rightarrow> fault + GatewayPacket" where
  "translate c f ts pkt =
     (let pkt = pkt\<lparr>timestamp_ns := ts\<rparr>;
          pkt = copy_metadata c f pkt
      in case copy_data f (data pkt) of
           Inl e \<Rightarrow> Inl e
         | Inr d \<Rightarrow> Inr (pkt\<lparr>data := d\<rparr>))"

section \<open>The forward loop\<close>

text \<open>
  Line 112: the nanosecond count. \<^verbatim>\<open>tv_sec\<close> is cast to \<^verbatim>\<open>uint64_t\<close>, so the
  product and the sum are taken modulo \<open>2 ^ 64\<close>.
\<close>

record timespec =
  tv_sec :: int
  tv_nsec :: int

definition timestamp_of :: "timespec \<Rightarrow> u64" where
  "timestamp_of ts = word_of_int (tv_sec ts) * 1000000000 + word_of_int (tv_nsec ts)"

text \<open>
  What the environment answers during one iteration: the return value of \<^verbatim>\<open>read\<close>,
  the value of \<^verbatim>\<open>errno\<close> after it, what the call left in \<^verbatim>\<open>frame\<close> (\<open>None\<close>: the
  buffer was not touched), the clock reading, and the return value and \<^verbatim>\<open>errno\<close> of
  \<^verbatim>\<open>sendto\<close>. The last three are consulted only when the read was complete.
\<close>

record io_event =
  read_nbytes :: int
  read_errno :: int
  read_buf :: "canfd_frame option"
  clock_ts :: timespec
  sendto_ret :: int
  sendto_errno :: int

text \<open>
  The state of \<^verbatim>\<open>run_gateway\<close>: its two local variables, the packets handed to
  \<^verbatim>\<open>sendto\<close> in order, the calls of \<^verbatim>\<open>perror\<close> (message and \<^verbatim>\<open>errno\<close>) and the
  lines printed on standard output.
\<close>

record loop_state =
  frame :: canfd_frame
  pkt :: GatewayPacket
  sent :: "GatewayPacket list"
  diag :: "(string \<times> int) list"
  console :: "string list"

text \<open>
  One pass through the body of \<^verbatim>\<open>while (true)\<close> (lines 100 to 132). An incomplete
  read reaches \<^verbatim>\<open>continue\<close>; a complete one is translated and handed to
  \<^verbatim>\<open>sendto\<close> once. The body has no \<^verbatim>\<open>break\<close>, \<^verbatim>\<open>return\<close> or \<^verbatim>\<open>exit\<close>: the
  only result other than the next state is the undefined behaviour of the copy.
  The test \<^verbatim>\<open>nbytes != sizeof(frame)\<close> converts \<^verbatim>\<open>nbytes\<close> to \<^verbatim>\<open>size_t\<close>; for a
  frame size below \<open>2 ^ 63\<close> that is the comparison of the two integers.
\<close>

definition gateway_iteration :: "sys_consts \<Rightarrow> io_event \<Rightarrow> loop_state \<Rightarrow> fault + loop_state" where
  "gateway_iteration c ev st =
     (let st = (case read_buf ev of None \<Rightarrow> st | Some f \<Rightarrow> st\<lparr>frame := f\<rparr>) in
      if read_nbytes ev \<noteq> int (sizeof_frame c) then
        Inr (if read_nbytes ev < 0 \<and> read_errno ev \<noteq> EINTR c
             then st\<lparr>diag := diag st @ [(''read CAN'', read_errno ev)]\<rparr>
             else st)
      else
        case translate c (frame st) (timestamp_of (clock_ts ev)) (pkt st) of
          Inl e \<Rightarrow> Inl e
        | Inr p \<Rightarrow>
            (let st = st\<lparr>pkt := p\<rparr>;
                 st = st\<lparr>sent := sent st @ [p]\<rparr>
             in Inr (if sendto_ret ev < 0
                     then st\<lparr>diag := diag st @ [(''sendto UDP'', sendto_errno ev)]\<rparr>
                     else st)))"

text \<open>
  The loop never returns. \<open>gateway_loop\<close> runs it against a finite prefix of the
  environment's answers, one iteration for each, and gives the state reached.
\<close>

fun gateway_loop :: "sys_consts \<Rightarrow> io_event list \<Rightarrow> loop_state \<Rightarrow> fault + loop_state" where
  "gateway_loop c [] st = Inr st"
| "gateway_loop c (ev # evs) st =
     (case gateway_iteration c ev st of
        Inl e \<Rightarrow> Inl e
      | Inr st' \<Rightarrow> gateway_loop c evs st')"

text \<open>
  \<^verbatim>\<open>run_gateway\<close>: the locals \<^verbatim>\<open>frame\<close> and \<^verbatim>\<open>pkt\<close> are not initialised, so
  their first contents are arguments.
\<close>

definition run_gateway ::
  "sys_consts \<Rightarrow> io_event list \<Rightarrow> canfd_frame \<Rightarrow> GatewayPacket \<Rightarrow> fault + loop_state" where
  "run_gateway c evs frame0 pkt0 =
     gateway_loop c evs
       \<lparr>frame = frame0, pkt = pkt0, sent = [], diag = [],
        console = [''Starting gateway loop...'']\<rparr>"

definition full_read :: "sys_consts \<Rightarrow> io_event \<Rightarrow> bool" where
  "full_read c ev \<longleftrightarrow> read_nbytes ev = int (sizeof_frame c)"

text \<open>
  What the bus source guarantees for a complete read: \<^verbatim>\<open>frame\<close> holds a whole frame
  whose length is at most 64.
\<close>

definition valid_frame :: "canfd_frame \<Rightarrow> bool" where
  "valid_frame f \<longleftrightarrow> wf_frame f \<and> unat (frame_len f) \<le> 64"

definition valid_event :: "sys_consts \<Rightarrow> io_event \<Rightarrow> bool" where
  "valid_event c ev \<longleftrightarrow>
     (full_read c ev \<longrightarrow> (case read_buf ev of None \<Rightarrow> False | Some f \<Rightarrow> valid_frame f))"

section \<open>Layout of the packet in memory\<close>

text \<open>
  The layout rule of the C ABI under \<^verbatim>\<open>#pragma pack(n)\<close>: a member of size \<open>sz\<close> and
  natural alignment \<open>al\<close> is placed at the next multiple of \<open>min n al\<close>, and the size of
  the struct is rounded up to the largest alignment so used.
\<close>

definition align_up :: "nat \<Rightarrow> nat \<Rightarrow> nat" where
  "align_up a n = ((n + a - 1) div a) * a"

fun member_offsets :: "nat \<Rightarrow> nat \<Rightarrow> (nat \<times> nat) list \<Rightarrow> nat list" where
  "member_offsets pack off [] = []"
| "member_offsets pack off ((sz, al) # ms) =
     (let here = align_up (min pack al) off in here # member_offsets pack (here + sz) ms)"

fun members_end :: "nat \<Rightarrow> nat \<Rightarrow> (nat \<times> nat) list \<Rightarrow> nat" where
  "members_end pack off [] = off"
| "members_end pack off ((sz, al) # ms) =
     members_end pack (align_up (min pack al) off + sz) ms"

definition struct_align :: "nat \<Rightarrow> (nat \<times> nat) list \<Rightarrow> nat" where
  "struct_align pack ms = fold max (map (\<lambda>(sz, al). min pack al) ms) 1"

definition sizeof_struct :: "nat \<Rightarrow> (nat \<times> nat) list \<Rightarrow> nat" where
  "sizeof_struct pack ms = align_up (struct_align pack ms) (members_end pack 0 ms)"

text \<open>
  The members of \<^verbatim>\<open>GatewayPacket\<close> in declaration order, each with its size and its
  natural alignment, and the packing of \<^verbatim>\<open>#pragma pack(push, 1)\<close>.
\<close>

definition GatewayPacket_members :: "(nat \<times> nat) list" where
  "GatewayPacket_members = [(8, 8), (4, 4), (1, 1), (1, 1), (64, 1)]"

definition GatewayPacket_pack :: nat where
  "GatewayPacket_pack = 1"

definition PACKET_SIZE :: nat where
  "PACKET_SIZE = sizeof_struct GatewayPacket_pack GatewayPacket_members"

text \<open>
  The bytes of an integer member in host byte order. The byte order of the host is an
  argument: the code does not normalise it.
\<close>

datatype endianness = LittleEndian | BigEndian

definition word_bytes :: "endianness \<Rightarrow> nat \<Rightarrow> 'a::len word \<Rightarrow> u8 list" where
  "word_bytes e n w =
     (let le = map (\<lambda>i. ucast (drop_bit (8 * i) w)) [0..<n]
      in case e of LittleEndian \<Rightarrow> le | BigEndian \<Rightarrow> rev le)"

definition store_bytes :: "nat \<Rightarrow> u8 list \<Rightarrow> u8 list \<Rightarrow> u8 list" where
  "store_bytes off bs mem = take off mem @ bs @ drop (off + length bs) mem"

definition member_bytes :: "endianness \<Rightarrow> GatewayPacket \<Rightarrow> u8 list list" where
  "member_bytes e p =
     [word_bytes e 8 (timestamp_ns p), word_bytes e 4 (can_id p), [dlc p], [flags p], data p]"

text \<open>
  The \<open>PACKET_SIZE\<close> bytes at \<^verbatim>\<open>&pkt\<close> that \<^verbatim>\<open>sendto\<close> transmits (line 128): each
  member stored at its offset. \<open>padding\<close> gives the bytes that no member covers.
\<close>

definition object_repr :: "endianness \<Rightarrow> (nat \<Rightarrow> u8) \<Rightarrow> GatewayPacket \<Rightarrow> u8 list" where
  "object_repr e padding p =
     fold (\<lambda>(off, bs) mem. store_bytes off bs mem)
       (zip (member_offsets GatewayPacket_pack 0 GatewayPacket_members) (member_bytes e p))
       (map padding [0..<PACKET_SIZE])"

section \<open>Concrete inputs\<close>

text \<open>
  The frame of the specification's worked example (identifier 0x123, three payload bytes,
  BRS set), with bytes left over from an earlier, longer frame after the payload, and a
  packet buffer full of earlier contents.
\<close>

definition example_frame :: canfd_frame where
  "example_frame =
     \<lparr>frame_can_id = 0x123, frame_len = 3, frame_flags = 0x01,
      frame_data = [0xAA, 0xBB, 0xCC] @ replicate 61 0x77\<rparr>"

definition stale_packet :: GatewayPacket where
  "stale_packet =
     \<lparr>timestamp_ns = 5, can_id = 0xFFFFFFFF, dlc = 64, flags = 0xFF,
      data = replicate 64 0x55\<rparr>"

text \<open>
  Answers of the environment for single iterations: a short read that leaves part of a
  frame in the buffer, a complete read whose packet is sent, and a complete read whose
  packet \<^verbatim>\<open>sendto\<close> refuses; and a state at the start of the loop.
\<close>

definition short_read :: io_event where
  "short_read =
     \<lparr>read_nbytes = 16, read_errno = 0,
      read_buf = Some \<lparr>frame_can_id = 0x7FF, frame_len = 200, frame_flags = 0xFF,
                       frame_data = replicate 64 0x11\<rparr>,
      clock_ts = \<lparr>tv_sec = 0, tv_nsec = 500\<rparr>, sendto_ret = 0, sendto_errno = 0\<rparr>"

definition good_read :: io_event where
  "good_read =
     \<lparr>read_nbytes = 72, read_errno = 0, read_buf = Some example_frame,
      clock_ts = \<lparr>tv_sec = 1, tv_nsec = 0\<rparr>, sendto_ret = 78, sendto_errno = 0\<rparr>"

definition unsent_read :: io_event where
  "unsent_read =
     \<lparr>read_nbytes = 72, read_errno = 0, read_buf = Some example_frame,
      clock_ts = \<lparr>tv_sec = 2, tv_nsec = 250\<rparr>, sendto_ret = - 1, sendto_errno = 101\<rparr>"

definition start_state :: loop_state where
  "start_state =
     \<lparr>frame = example_frame, pkt = stale_packet, sent = [], diag = [],
      console = [''Starting gateway loop...'']\<rparr>"

section \<open>Helper lemmas on the translation\<close>

lemma copy_data_ok:
  assumes "length buf = 64" and "length (frame_data f) = 64" and "unat (frame_len f) \<le> 64"
  shows "copy_data f buf =
           Inr (take (unat (frame_len f)) (frame_data f) @ replicate (64 - unat (frame_len f)) 0)"
proof (cases "frame_len f > 0")
  case True
  with assms show ?thesis
    by (simp add: copy_data_def copy_payload_def memset_bytes_def memcpy_bytes_def)
next
  case False
  then have "frame_len f = 0" by (simp add: word_greater_zero_iff)
  with assms show ?thesis
    by (simp add: copy_data_def copy_payload_def memset_bytes_def)
qed

lemma copy_metadata_data [simp]: "data (copy_metadata c f p0) = data p0"
  by (simp add: copy_metadata_def Let_def)

lemma translate_ok:
  assumes "wf_packet p0" and "valid_frame f"
  shows "translate c f ts p0 =
           Inr ((copy_metadata c f (p0\<lparr>timestamp_ns := ts\<rparr>))
                 \<lparr>data := take (unat (frame_len f)) (frame_data f)
                          @ replicate (64 - unat (frame_len f)) 0\<rparr>)"
  using assms
  by (simp add: translate_def Let_def copy_data_ok wf_packet_def wf_frame_def valid_frame_def)

lemma metadata_timestamp [simp]: "timestamp_ns (copy_metadata c f p0) = timestamp_ns p0"
  by (simp add: copy_metadata_def Let_def)

lemma metadata_can_id [simp]: "can_id (copy_metadata c f p0) = frame_can_id f"
  by (simp add: copy_metadata_def Let_def)

lemma metadata_dlc [simp]: "dlc (copy_metadata c f p0) = frame_len f"
  by (simp add: copy_metadata_def Let_def)

lemma metadata_flags:
  "flags (copy_metadata c f p0) =
     (if frame_flags f AND CANFD_BRS c \<noteq> 0 then 0x01 else 0)
     OR (if frame_flags f AND CANFD_ESI c \<noteq> 0 then 0x02 else 0)"
  by (simp add: copy_metadata_def Let_def)

lemma translate_prior_irrelevant:
  assumes "wf_packet p0" and "wf_packet p1" and "valid_frame f"
  shows "translate c f ts p0 = translate c f ts p1"
  using assms by (simp add: translate_ok copy_metadata_def Let_def)

lemma translate_wf:
  assumes "wf_packet p0" and "valid_frame f" and "translate c f ts p0 = Inr p"
  shows "wf_packet p"
  using assms by (auto simp add: translate_ok wf_packet_def valid_frame_def wf_frame_def)

lemma translate_fields:
  assumes "wf_packet p0" and "valid_frame f"
  shows "\<exists>p. translate c f ts p0 = Inr p \<and> timestamp_ns p = ts \<and> can_id p = frame_can_id f
           \<and> dlc p = frame_len f
           \<and> flags p = (if frame_flags f AND CANFD_BRS c \<noteq> 0 then 0x01 else 0)
                        OR (if frame_flags f AND CANFD_ESI c \<noteq> 0 then 0x02 else 0)
           \<and> data p = take (unat (frame_len f)) (frame_data f)
                       @ replicate (64 - unat (frame_len f)) 0"
  using assms by (simp add: translate_ok metadata_flags)

lemma iteration_failed_read:
  assumes "\<not> full_read c ev"
  shows "\<exists>st'. gateway_iteration c ev st = Inr st' \<and> sent st' = sent st \<and> pkt st' = pkt st
           \<and> console st' = console st
           \<and> diag st' = diag st @ (if read_nbytes ev < 0 \<and> read_errno ev \<noteq> EINTR c
                                   then [(''read CAN'', read_errno ev)] else [])"
  using assms by (simp add: gateway_iteration_def full_read_def Let_def split: option.split)

lemma iteration_full_read:
  assumes "full_read c ev" and "read_buf ev = Some f"
    and "translate c f (timestamp_of (clock_ts ev)) (pkt st) = Inr p"
  shows "gateway_iteration c ev st =
           Inr (st\<lparr>frame := f, pkt := p, sent := sent st @ [p],
                   diag := diag st @ (if sendto_ret ev < 0
                                      then [(''sendto UDP'', sendto_errno ev)] else [])\<rparr>)"
  using assms by (simp add: gateway_iteration_def full_read_def Let_def)

section \<open>Helper lemmas on the loop\<close>

lemma iteration_valid:
  assumes "wf_packet (pkt st)" and "valid_event c ev"
  shows "\<exists>st' new. gateway_iteration c ev st = Inr st' \<and> wf_packet (pkt st')
           \<and> sent st' = sent st @ new
           \<and> map timestamp_ns new =
               map (\<lambda>ev. timestamp_of (clock_ts ev)) (filter (full_read c) [ev])"
proof (cases "full_read c ev")
  case False
  from iteration_failed_read [OF False, of st] show ?thesis using assms False by auto
next
  case True
  with assms obtain f where f: "read_buf ev = Some f" "valid_frame f"
    by (auto simp: valid_event_def split: option.splits)
  from translate_fields [OF assms(1) f(2), of c "timestamp_of (clock_ts ev)"] obtain p where
    t: "translate c f (timestamp_of (clock_ts ev)) (pkt st) = Inr p"
    and ts: "timestamp_ns p = timestamp_of (clock_ts ev)"
    by blast
  have w: "wf_packet p" using translate_wf [OF assms(1) f(2) t] .
  show ?thesis
    using iteration_full_read [OF True f(1) t] w True ts by simp
qed

lemma loop_valid:
  assumes "wf_packet (pkt st)" and "\<forall>ev \<in> set evs. valid_event c ev"
  shows "\<exists>st' new. gateway_loop c evs st = Inr st' \<and> wf_packet (pkt st')
           \<and> sent st' = sent st @ new
           \<and> map timestamp_ns new =
               map (\<lambda>ev. timestamp_of (clock_ts ev)) (filter (full_read c) evs)"
  using assms
proof (induction evs arbitrary: st)
  case Nil
  then show ?case by simp
next
  case (Cons ev evs)
  from Cons.prems have v: "valid_event c ev" and vs: "\<forall>ev \<in> set evs. valid_event c ev" by simp_all
  from iteration_valid [OF Cons.prems(1) v] obtain st1 new1 where
    s1: "gateway_iteration c ev st = Inr st1" "wf_packet (pkt st1)" "sent st1 = sent st @ new1"
      "map timestamp_ns new1 = map (\<lambda>ev. timestamp_of (clock_ts ev)) (filter (full_read c) [ev])"
    by blast
  from Cons.IH [OF s1(2) vs] obtain st' new where
    s': "gateway_loop c evs st1 = Inr st'" "wf_packet (pkt st')" "sent st' = sent st1 @ new"
      "map timestamp_ns new = map (\<lambda>ev. timestamp_of (clock_ts ev)) (filter (full_read c) evs)"
    by blast
  have "sent st' = sent st @ (new1 @ new)" using s1(3) s'(3) by simp
  moreover have "map timestamp_ns (new1 @ new) =
      map (\<lambda>ev. timestamp_of (clock_ts ev)) (filter (full_read c) (ev # evs))"
    using s1(4) s'(4) by simp
  ultimately show ?case using s1(1) s'(1,2) by (simp del: append_assoc)
qed

lemma gateway_loop_append:
  "gateway_loop c (xs @ ys) st =
     (case gateway_loop c xs st of Inl e \<Rightarrow> Inl e | Inr st' \<Rightarrow> gateway_loop c ys st')"
  by (induction xs arbitrary: st) (simp_all split: sum.split)

lemma loop_failed_reads:
  assumes "\<forall>ev \<in> set fails. \<not> full_read c ev"
  shows "\<exists>st'. gateway_loop c fails st = Inr st' \<and> sent st' = sent st \<and> pkt st' = pkt st"
  using assms
proof (induction fails arbitrary: st)
  case Nil
  then show ?case by simp
next
  case (Cons ev fails)
  from Cons.prems have f: "\<not> full_read c ev" and fs: "\<forall>ev \<in> set fails. \<not> full_read c ev"
    by simp_all
  from iteration_failed_read [OF f, of st] obtain st1 where
    s1: "gateway_iteration c ev st = Inr st1" "sent st1 = sent st" "pkt st1 = pkt st"
    by blast
  from Cons.IH [OF fs, of st1] obtain st' where
    s': "gateway_loop c fails st1 = Inr st'" "sent st' = sent st1" "pkt st' = pkt st1"
    by blast
  show ?case using s1 s' by simp
qed

lemma timestamp_of_exact:
  assumes "0 \<le> tv_sec ts" and "0 \<le> tv_nsec ts"
    and "tv_sec ts * 1000000000 + tv_nsec ts < 2 ^ 64"
  shows "uint (timestamp_of ts) = tv_sec ts * 1000000000 + tv_nsec ts"
proof -
  let ?ns = "tv_sec ts * 1000000000 + tv_nsec ts"
  have e: "timestamp_of ts = word_of_int ?ns"
    by (simp add: timestamp_of_def)
  have nn: "0 \<le> ?ns" using assms(1,2) by simp
  have "uint (word_of_int ?ns :: u64) = take_bit LENGTH(64) ?ns"
    by (rule uint_word_of_int_eq)
  also have "\<dots> = ?ns"
    using nn assms(3) by (simp add: take_bit_int_eq_self)
  finally have "uint (word_of_int ?ns :: u64) = ?ns" .
  then show ?thesis by (simp only: e)
qed

section \<open>Helper lemmas on the layout and the concrete inputs\<close>

lemma wf_stale_packet: "wf_packet stale_packet"
  by (simp add: wf_packet_def stale_packet_def)

lemma valid_example_frame: "valid_frame example_frame"
  by (simp add: valid_frame_def wf_frame_def example_frame_def)

lemma PACKET_SIZE_value: "PACKET_SIZE = 78"
  by (simp add: PACKET_SIZE_def sizeof_struct_def struct_align_def GatewayPacket_members_def
      GatewayPacket_pack_def align_up_def)

lemma GatewayPacket_offsets:
  "member_offsets GatewayPacket_pack 0 GatewayPacket_members = [0, 8, 12, 13, 14]"
  by (simp add: GatewayPacket_members_def GatewayPacket_pack_def align_up_def)

lemma unpacked_size: "sizeof_struct 8 GatewayPacket_members = 80"
  by (simp add: sizeof_struct_def struct_align_def GatewayPacket_members_def align_up_def)

lemma length_word_bytes [simp]: "length (word_bytes e n w) = n"
  by (cases e) (simp_all add: word_bytes_def)

lemma object_repr_packed:
  assumes "wf_packet p"
  shows "object_repr e padding p =
           word_bytes e 8 (timestamp_ns p) @ word_bytes e 4 (can_id p) @ [dlc p] @ [flags p] @ data p"
  using assms
  by (simp add: object_repr_def GatewayPacket_offsets member_bytes_def store_bytes_def
      PACKET_SIZE_value wf_packet_def)

section \<open>The claims\<close>

text \<open>
  C1. For every valid frame (length 0 to 64) the packet produced has a fixed size of 78
  bytes: \<open>timestamp_ns\<close> (8 bytes), \<open>can_id\<close> (4 bytes), \<open>dlc\<close> (1 byte),
  \<open>flags\<close> (1 byte) and \<open>data\<close> (64 bytes) follow each other in this order at the
  offsets 0, 8, 12, 13 and 14, with no padding byte between or after them, whatever the
  frame, the timestamp, the host byte order and the earlier contents of the storage.
\<close>

theorem packet_size_fixed:
  assumes "wf_packet p0" and "valid_frame f"
  shows "\<exists>p. translate c f ts p0 = Inr p
           \<and> PACKET_SIZE = 78
           \<and> member_offsets GatewayPacket_pack 0 GatewayPacket_members = [0, 8, 12, 13, 14]
           \<and> length (object_repr e padding p) = PACKET_SIZE
           \<and> object_repr e padding p =
               word_bytes e 8 (timestamp_ns p) @ word_bytes e 4 (can_id p)
               @ [dlc p] @ [flags p] @ data p
           \<and> length (word_bytes e 8 (timestamp_ns p)) = 8
           \<and> length (word_bytes e 4 (can_id p)) = 4
           \<and> length (data p) = 64"
proof -
  obtain p where p: "translate c f ts p0 = Inr p"
    using assms by (simp add: translate_ok)
  have w: "wf_packet p" using translate_wf [OF assms p] .
  then have d: "length (data p) = 64" by (simp add: wf_packet_def)
  show ?thesis
    using p d by (simp add: object_repr_packed [OF w] PACKET_SIZE_value GatewayPacket_offsets)
qed

theorem packet_size_fixed_witness:
  "wf_packet stale_packet \<and> valid_frame example_frame
   \<and> (\<exists>p. translate linux_consts example_frame 1000000000 stale_packet = Inr p
          \<and> length (object_repr LittleEndian (\<lambda>i. 0xEE) p) = 78)"
  using packet_size_fixed [OF wf_stale_packet valid_example_frame,
      of linux_consts 1000000000 LittleEndian "\<lambda>i. 0xEE"]
  by (auto simp add: wf_stale_packet valid_example_frame)

text \<open>
  C2. For every frame of length \<open>L < 64\<close>, the bytes \<open>[L, 64)\<close> of the packet's
  \<open>data\<close> are zero after the translation, and the packet produced is the same for
  every earlier content of the reused packet buffer: nothing of an earlier iteration
  remains in it.
\<close>

theorem zero_padding:
  assumes "wf_packet p0" and "valid_frame f" and "unat (frame_len f) < 64"
  shows "\<exists>p. translate c f ts p0 = Inr p
           \<and> length (data p) = 64
           \<and> (\<forall>i. unat (frame_len f) \<le> i \<and> i < 64 \<longrightarrow> data p ! i = 0)
           \<and> (\<forall>p1. wf_packet p1 \<longrightarrow> translate c f ts p1 = Inr p)"
proof -
  let ?L = "unat (frame_len f)"
  obtain p where p: "translate c f ts p0 = Inr p"
    using assms by (simp add: translate_ok)
  then have d: "data p = take ?L (frame_data f) @ replicate (64 - ?L) 0"
    using assms by (auto simp add: translate_ok)
  have l: "length (take ?L (frame_data f)) = ?L"
    using assms by (simp add: valid_frame_def wf_frame_def)
  have z: "\<forall>i. ?L \<le> i \<and> i < 64 \<longrightarrow> data p ! i = 0"
  proof (intro allI impI)
    fix i assume i: "?L \<le> i \<and> i < 64"
    then have "i - ?L < 64 - ?L" by arith
    then have "replicate (64 - ?L) (0::u8) ! (i - ?L) = 0" by (rule nth_replicate)
    with i l show "data p ! i = 0" by (simp add: d nth_append)
  qed
  have len: "length (data p) = 64" using l assms(3) by (simp add: d)
  have ind: "\<forall>p1. wf_packet p1 \<longrightarrow> translate c f ts p1 = Inr p"
    using translate_prior_irrelevant [OF _ assms(1,2)] p by simp
  show ?thesis using p z len ind by blast
qed

theorem zero_padding_witness:
  "wf_packet stale_packet \<and> valid_frame example_frame \<and> unat (frame_len example_frame) < 64
   \<and> (\<exists>p. translate linux_consts example_frame 1000000000 stale_packet = Inr p
          \<and> data p ! 3 = 0 \<and> data p ! 63 = 0)"
proof -
  have h: "unat (frame_len example_frame) < 64" by (simp add: example_frame_def)
  have l: "unat (frame_len example_frame) = 3" by (simp add: example_frame_def)
  show ?thesis
    using zero_padding [OF wf_stale_packet valid_example_frame h, of linux_consts 1000000000]
    by (auto simp add: wf_stale_packet valid_example_frame l)
qed

text \<open>
  C3. For every frame of length \<open>L\<close> (0 to 64), the first \<open>L\<close> bytes of the packet's
  \<open>data\<close> are the first \<open>L\<close> bytes of the frame's payload, byte for byte.
\<close>

theorem payload_fidelity:
  assumes "wf_packet p0" and "valid_frame f"
  shows "\<exists>p. translate c f ts p0 = Inr p
           \<and> take (unat (frame_len f)) (data p) = take (unat (frame_len f)) (frame_data f)
           \<and> (\<forall>i < unat (frame_len f). data p ! i = frame_data f ! i)"
proof -
  let ?L = "unat (frame_len f)"
  obtain p where p: "translate c f ts p0 = Inr p"
    using assms by (simp add: translate_ok)
  then have d: "data p = take ?L (frame_data f) @ replicate (64 - ?L) 0"
    using assms by (auto simp add: translate_ok)
  have l: "length (take ?L (frame_data f)) = ?L"
    using assms by (simp add: valid_frame_def wf_frame_def)
  have t: "take ?L (data p) = take ?L (frame_data f)"
    using l by (simp add: d)
  have n: "\<forall>i < ?L. data p ! i = frame_data f ! i"
    using l by (simp add: d nth_append)
  show ?thesis using p t n by blast
qed

theorem payload_fidelity_witness:
  "wf_packet stale_packet \<and> valid_frame example_frame
   \<and> (\<exists>p. translate linux_consts example_frame 1000000000 stale_packet = Inr p
          \<and> take 3 (data p) = [0xAA, 0xBB, 0xCC])"
proof -
  have l: "unat (frame_len example_frame) = 3" by (simp add: example_frame_def)
  have t: "take 3 (frame_data example_frame) = [0xAA, 0xBB, 0xCC]" by (simp add: example_frame_def)
  show ?thesis
    using payload_fidelity [OF wf_stale_packet valid_example_frame, of linux_consts 1000000000]
    by (auto simp add: wf_stale_packet valid_example_frame l t)
qed

text \<open>
  C4. For every frame and every combination of source flag bits, bit 0 of the packet's
  \<open>flags\<close> is set iff the frame's flags meet \<^verbatim>\<open>CANFD_BRS\<close>, bit 1 iff they meet
  \<^verbatim>\<open>CANFD_ESI\<close>, and the six other bits are zero: BRS alone gives 0x01, ESI alone
  0x02, both 0x03, neither 0x00. Other source flag bits have no effect and the
  translation still succeeds.
\<close>

theorem flag_mapping:
  assumes "wf_packet p0" and "valid_frame f"
  shows "\<exists>p. translate c f ts p0 = Inr p
           \<and> (bit (flags p) 0 \<longleftrightarrow> frame_flags f AND CANFD_BRS c \<noteq> 0)
           \<and> (bit (flags p) 1 \<longleftrightarrow> frame_flags f AND CANFD_ESI c \<noteq> 0)
           \<and> flags p AND 0xFC = 0
           \<and> (frame_flags f AND CANFD_BRS c \<noteq> 0 \<and> frame_flags f AND CANFD_ESI c = 0
                \<longrightarrow> flags p = 0x01)
           \<and> (frame_flags f AND CANFD_BRS c = 0 \<and> frame_flags f AND CANFD_ESI c \<noteq> 0
                \<longrightarrow> flags p = 0x02)
           \<and> (frame_flags f AND CANFD_BRS c \<noteq> 0 \<and> frame_flags f AND CANFD_ESI c \<noteq> 0
                \<longrightarrow> flags p = 0x03)
           \<and> (frame_flags f AND CANFD_BRS c = 0 \<and> frame_flags f AND CANFD_ESI c = 0
                \<longrightarrow> flags p = 0x00)"
proof -
  from translate_fields [OF assms, of c ts] obtain p where
    p: "translate c f ts p0 = Inr p"
    and fl: "flags p = (if frame_flags f AND CANFD_BRS c \<noteq> 0 then 0x01 else 0)
                        OR (if frame_flags f AND CANFD_ESI c \<noteq> 0 then 0x02 else 0)"
    by blast
  have "(bit (flags p) 0 \<longleftrightarrow> frame_flags f AND CANFD_BRS c \<noteq> 0)
           \<and> (bit (flags p) 1 \<longleftrightarrow> frame_flags f AND CANFD_ESI c \<noteq> 0)
           \<and> flags p AND 0xFC = 0
           \<and> (frame_flags f AND CANFD_BRS c \<noteq> 0 \<and> frame_flags f AND CANFD_ESI c = 0
                \<longrightarrow> flags p = 0x01)
           \<and> (frame_flags f AND CANFD_BRS c = 0 \<and> frame_flags f AND CANFD_ESI c \<noteq> 0
                \<longrightarrow> flags p = 0x02)
           \<and> (frame_flags f AND CANFD_BRS c \<noteq> 0 \<and> frame_flags f AND CANFD_ESI c \<noteq> 0
                \<longrightarrow> flags p = 0x03)
           \<and> (frame_flags f AND CANFD_BRS c = 0 \<and> frame_flags f AND CANFD_ESI c = 0
                \<longrightarrow> flags p = 0x00)"
    unfolding fl by simp
  with p show ?thesis by blast
qed

theorem flag_mapping_witness:
  "wf_packet stale_packet \<and> valid_frame (example_frame\<lparr>frame_flags := 0xFD\<rparr>)
   \<and> (\<exists>p. translate linux_consts (example_frame\<lparr>frame_flags := 0xFD\<rparr>) 7 stale_packet = Inr p
          \<and> flags p = 0x01)"
proof -
  have v: "valid_frame (example_frame\<lparr>frame_flags := 0xFD\<rparr>)"
    using valid_example_frame by (simp add: valid_frame_def wf_frame_def)
  show ?thesis
    using flag_mapping [OF wf_stale_packet v, of linux_consts 7]
    by (auto simp add: wf_stale_packet v linux_consts_def)
qed

text \<open>
  C5. For every frame, whatever its 32-bit identifier (the extended-ID and
  remote-request marker bits included), the packet's \<open>can_id\<close> is the identifier,
  unmasked.
\<close>

theorem identifier_passthrough:
  assumes "wf_packet p0" and "valid_frame f"
  shows "\<exists>p. translate c f ts p0 = Inr p \<and> can_id p = frame_can_id f"
  using translate_fields [OF assms, of c ts] by blast

theorem identifier_passthrough_witness:
  "wf_packet stale_packet \<and> valid_frame (example_frame\<lparr>frame_can_id := 0xC0000123\<rparr>)
   \<and> (\<exists>p. translate linux_consts (example_frame\<lparr>frame_can_id := 0xC0000123\<rparr>) 7 stale_packet = Inr p
          \<and> can_id p = 0xC0000123)"
proof -
  have v: "valid_frame (example_frame\<lparr>frame_can_id := 0xC0000123\<rparr>)"
    using valid_example_frame by (simp add: valid_frame_def wf_frame_def)
  show ?thesis
    using identifier_passthrough [OF wf_stale_packet v, of linux_consts 7]
    by (auto simp add: wf_stale_packet v)
qed

text \<open>
  C6. For every frame, the packet's \<open>dlc\<close> is the frame's length. A frame of length 0
  is translated and handed to \<^verbatim>\<open>sendto\<close> like any other: no payload byte is
  copied, \<open>dlc\<close> is 0 and \<open>data\<close> is 64 zero bytes.
\<close>

theorem dlc_verbatim:
  assumes "wf_packet (pkt st)" and "valid_frame f" and "full_read c ev" and "read_buf ev = Some f"
  shows "\<exists>p st'. translate c f (timestamp_of (clock_ts ev)) (pkt st) = Inr p
           \<and> dlc p = frame_len f
           \<and> gateway_iteration c ev st = Inr st' \<and> sent st' = sent st @ [p]
           \<and> (frame_len f = 0 \<longrightarrow>
                dlc p = 0 \<and> data p = replicate 64 0 \<and> (\<forall>buf. copy_payload f buf = Inr buf))"
proof -
  from translate_fields [OF assms(1,2), of c "timestamp_of (clock_ts ev)"] obtain p where
    p: "translate c f (timestamp_of (clock_ts ev)) (pkt st) = Inr p"
    and dl: "dlc p = frame_len f"
    and da: "data p = take (unat (frame_len f)) (frame_data f)
                       @ replicate (64 - unat (frame_len f)) 0"
    by blast
  have z: "frame_len f = 0 \<longrightarrow>
             dlc p = 0 \<and> data p = replicate 64 0 \<and> (\<forall>buf. copy_payload f buf = Inr buf)"
    by (simp add: dl da copy_payload_def)
  show ?thesis
    using p dl z iteration_full_read [OF assms(3,4) p] by simp
qed

theorem dlc_verbatim_witness:
  "wf_packet (pkt start_state) \<and> valid_frame (example_frame\<lparr>frame_len := 0\<rparr>)
   \<and> full_read linux_consts (good_read\<lparr>read_buf := Some (example_frame\<lparr>frame_len := 0\<rparr>)\<rparr>)
   \<and> (\<exists>p st'. gateway_iteration linux_consts
                  (good_read\<lparr>read_buf := Some (example_frame\<lparr>frame_len := 0\<rparr>)\<rparr>) start_state = Inr st'
          \<and> sent st' = [p] \<and> dlc p = 0 \<and> data p = replicate 64 0)"
proof -
  have w: "wf_packet (pkt start_state)" by (simp add: start_state_def wf_stale_packet)
  have v: "valid_frame (example_frame\<lparr>frame_len := 0\<rparr>)"
    using valid_example_frame by (simp add: valid_frame_def wf_frame_def)
  have r: "full_read linux_consts (good_read\<lparr>read_buf := Some (example_frame\<lparr>frame_len := 0\<rparr>)\<rparr>)"
    by (simp add: full_read_def good_read_def linux_consts_def)
  have b: "read_buf (good_read\<lparr>read_buf := Some (example_frame\<lparr>frame_len := 0\<rparr>)\<rparr>)
             = Some (example_frame\<lparr>frame_len := 0\<rparr>)" by simp
  have s: "sent start_state = []" by (simp add: start_state_def)
  show ?thesis
    using dlc_verbatim [OF w v r b] by (auto simp add: w v r s)
qed


text \<open>
  C7. Reads that do not return a whole frame (short, empty or failed) are discarded and
  the loop goes on to the next read: no packet is sent for them, the packet buffer is
  untouched, and the rest of the run is the run from the state they leave. Any number of
  them (three, in the scenario of the specification) followed by one valid frame gives
  exactly one translation and one send.
\<close>

theorem failed_reads_are_retried:
  assumes "\<forall>ev \<in> set fails. \<not> full_read c ev"
  shows "\<exists>st'. gateway_loop c fails st = Inr st' \<and> sent st' = sent st \<and> pkt st' = pkt st
           \<and> (\<forall>evs. gateway_loop c (fails @ evs) st = gateway_loop c evs st')
           \<and> (\<forall>good f. full_read c good \<and> read_buf good = Some f \<and> valid_frame f
                  \<and> wf_packet (pkt st) \<longrightarrow>
                (\<exists>p st''. translate c f (timestamp_of (clock_ts good)) (pkt st) = Inr p
                   \<and> gateway_loop c (fails @ [good]) st = Inr st''
                   \<and> sent st'' = sent st @ [p]))"
proof -
  from loop_failed_reads [OF assms, of st] obtain st' where
    s: "gateway_loop c fails st = Inr st'" "sent st' = sent st" "pkt st' = pkt st"
    by blast
  have cont: "\<forall>evs. gateway_loop c (fails @ evs) st = gateway_loop c evs st'"
    by (simp add: gateway_loop_append s(1))
  have scen: "\<forall>good f. full_read c good \<and> read_buf good = Some f \<and> valid_frame f
                  \<and> wf_packet (pkt st) \<longrightarrow>
                (\<exists>p st''. translate c f (timestamp_of (clock_ts good)) (pkt st) = Inr p
                   \<and> gateway_loop c (fails @ [good]) st = Inr st''
                   \<and> sent st'' = sent st @ [p])"
  proof (intro allI impI)
    fix good f
    assume h: "full_read c good \<and> read_buf good = Some f \<and> valid_frame f \<and> wf_packet (pkt st)"
    then have w: "wf_packet (pkt st')" by (simp add: s(3))
    from translate_fields [OF w, of f c "timestamp_of (clock_ts good)"] h obtain p where
      p: "translate c f (timestamp_of (clock_ts good)) (pkt st') = Inr p" by blast
    have it: "gateway_iteration c good st' =
           Inr (st'\<lparr>frame := f, pkt := p, sent := sent st' @ [p],
                   diag := diag st' @ (if sendto_ret good < 0
                                      then [(''sendto UDP'', sendto_errno good)] else [])\<rparr>)"
      using iteration_full_read [of c good f st' p] h p by simp
    show "\<exists>p st''. translate c f (timestamp_of (clock_ts good)) (pkt st) = Inr p
                   \<and> gateway_loop c (fails @ [good]) st = Inr st''
                   \<and> sent st'' = sent st @ [p]"
      using p it s by (simp add: gateway_loop_append)
  qed
  show ?thesis using s cont scen by blast
qed

theorem failed_reads_are_retried_witness:
  "\<not> full_read linux_consts short_read
   \<and> (\<exists>p st''. translate linux_consts example_frame 1000000000 stale_packet = Inr p
          \<and> run_gateway linux_consts [short_read, short_read, short_read, good_read]
               example_frame stale_packet = Inr st''
          \<and> sent st'' = [p])"
proof -
  have f: "\<forall>ev \<in> set [short_read, short_read, short_read]. \<not> full_read linux_consts ev"
    by (simp add: full_read_def short_read_def linux_consts_def)
  have g: "full_read linux_consts good_read \<and> read_buf good_read = Some example_frame
             \<and> valid_frame example_frame \<and> wf_packet (pkt start_state)"
    by (simp add: full_read_def good_read_def linux_consts_def valid_example_frame
        start_state_def wf_stale_packet)
  have t: "timestamp_of (clock_ts good_read) = 1000000000"
    by (simp add: timestamp_of_def good_read_def)
  have r: "run_gateway linux_consts [short_read, short_read, short_read, good_read]
             example_frame stale_packet
           = gateway_loop linux_consts ([short_read, short_read, short_read] @ [good_read]) start_state"
    by (simp add: run_gateway_def start_state_def)
  have p0: "pkt start_state = stale_packet" and s0: "sent start_state = []"
    by (simp_all add: start_state_def)
  from failed_reads_are_retried [OF f, of start_state] g
  have "\<exists>p st''. translate linux_consts example_frame (timestamp_of (clock_ts good_read))
                    (pkt start_state) = Inr p
          \<and> gateway_loop linux_consts ([short_read, short_read, short_read] @ [good_read])
               start_state = Inr st''
          \<and> sent st'' = sent start_state @ [p]"
    by blast
  then have "\<exists>p st''. translate linux_consts example_frame 1000000000 stale_packet = Inr p
          \<and> run_gateway linux_consts [short_read, short_read, short_read, good_read]
               example_frame stale_packet = Inr st''
          \<and> sent st'' = [p]"
    unfolding r t p0 s0 by simp
  moreover have "\<not> full_read linux_consts short_read" using f by simp
  ultimately show ?thesis by blast
qed

text \<open>
  C8. When \<^verbatim>\<open>sendto\<close> reports a failure, the iteration reports it through
  \<^verbatim>\<open>perror\<close> and the loop continues with the next read. The packet was handed to
  \<^verbatim>\<open>sendto\<close> once; the state left behind is the state of a successful send plus
  the one diagnostic line, so nothing is retried or delayed.
\<close>

theorem send_failure_continues:
  assumes "wf_packet (pkt st)" and "valid_frame f" and "full_read c ev"
    and "read_buf ev = Some f" and "sendto_ret ev < 0"
  shows "\<exists>p st' ok. translate c f (timestamp_of (clock_ts ev)) (pkt st) = Inr p
           \<and> gateway_iteration c ev st = Inr st'
           \<and> sent st' = sent st @ [p]
           \<and> diag st' = diag st @ [(''sendto UDP'', sendto_errno ev)]
           \<and> gateway_iteration c (ev\<lparr>sendto_ret := 0\<rparr>) st = Inr ok
           \<and> st' = ok\<lparr>diag := diag ok @ [(''sendto UDP'', sendto_errno ev)]\<rparr>
           \<and> (\<forall>evs. gateway_loop c (ev # evs) st = gateway_loop c evs st')"
proof -
  from translate_fields [OF assms(1,2), of c "timestamp_of (clock_ts ev)"] obtain p where
    p: "translate c f (timestamp_of (clock_ts ev)) (pkt st) = Inr p" by blast
  let ?ok = "st\<lparr>frame := f, pkt := p, sent := sent st @ [p]\<rparr>"
  let ?st' = "st\<lparr>frame := f, pkt := p, sent := sent st @ [p],
                 diag := diag st @ [(''sendto UDP'', sendto_errno ev)]\<rparr>"
  have it: "gateway_iteration c ev st = Inr ?st'"
    using iteration_full_read [OF assms(3,4) p] assms(5) by simp
  have fr: "full_read c (ev\<lparr>sendto_ret := 0\<rparr>)" using assms(3) by (simp add: full_read_def)
  have ok: "gateway_iteration c (ev\<lparr>sendto_ret := 0\<rparr>) st = Inr ?ok"
    using iteration_full_read [OF fr, of f st p] assms(4) p by simp
  have eq: "?st' = ?ok\<lparr>diag := diag ?ok @ [(''sendto UDP'', sendto_errno ev)]\<rparr>" by simp
  have cont: "\<forall>evs. gateway_loop c (ev # evs) st = gateway_loop c evs ?st'"
    by (simp add: it)
  have a: "sent ?st' = sent st @ [p]" and b: "diag ?st' = diag st @ [(''sendto UDP'', sendto_errno ev)]"
    by simp_all
  from p it a b ok eq cont show ?thesis by blast
qed

theorem send_failure_continues_witness:
  "wf_packet (pkt start_state) \<and> valid_frame example_frame \<and> full_read linux_consts unsent_read
   \<and> read_buf unsent_read = Some example_frame \<and> sendto_ret unsent_read < 0
   \<and> (\<exists>p q st'. gateway_loop linux_consts [unsent_read, good_read] start_state = Inr st'
          \<and> sent st' = [p, q] \<and> timestamp_ns p = 2000000250 \<and> timestamp_ns q = 1000000000
          \<and> diag st' = [(''sendto UDP'', 101)])"
proof -
  have w: "wf_packet (pkt start_state)" by (simp add: start_state_def wf_stale_packet)
  have r: "full_read linux_consts unsent_read"
    by (simp add: full_read_def unsent_read_def linux_consts_def)
  have b: "read_buf unsent_read = Some example_frame" by (simp add: unsent_read_def)
  have n: "sendto_ret unsent_read < 0" by (simp add: unsent_read_def)
  from send_failure_continues [OF w valid_example_frame r b n] obtain p st' where
    p: "translate linux_consts example_frame (timestamp_of (clock_ts unsent_read)) (pkt start_state) = Inr p"
    and s: "sent st' = sent start_state @ [p]"
    and d: "diag st' = diag start_state @ [(''sendto UDP'', sendto_errno unsent_read)]"
    and i: "gateway_iteration linux_consts unsent_read start_state = Inr st'"
    and l: "gateway_loop linux_consts [unsent_read, good_read] start_state
              = gateway_loop linux_consts [good_read] st'"
    by blast
  have wp: "wf_packet p" using translate_wf [OF w valid_example_frame p] .
  have pk: "pkt st' = p"
    using iteration_full_read [OF r b p] i by auto
  have tp: "timestamp_ns p = 2000000250"
    using translate_fields [OF w valid_example_frame, of linux_consts "timestamp_of (clock_ts unsent_read)"] p
    by (auto simp add: timestamp_of_def unsent_read_def)
  have rg: "full_read linux_consts good_read"
    by (simp add: full_read_def good_read_def linux_consts_def)
  have bg: "read_buf good_read = Some example_frame" by (simp add: good_read_def)
  from translate_fields [OF wp valid_example_frame, of linux_consts "timestamp_of (clock_ts good_read)"]
  obtain q where q: "translate linux_consts example_frame (timestamp_of (clock_ts good_read)) (pkt st') = Inr q"
    and tq: "timestamp_ns q = timestamp_of (clock_ts good_read)"
    unfolding pk by blast
  have tq': "timestamp_ns q = 1000000000" by (simp add: tq timestamp_of_def good_read_def)
  have g: "gateway_loop linux_consts [good_read] st' =
             Inr (st'\<lparr>frame := example_frame, pkt := q, sent := sent st' @ [q],
                   diag := diag st' @ (if sendto_ret good_read < 0
                                      then [(''sendto UDP'', sendto_errno good_read)] else [])\<rparr>)"
    using iteration_full_read [OF rg bg q] by simp
  have "\<exists>p q st'. gateway_loop linux_consts [unsent_read, good_read] start_state = Inr st'
          \<and> sent st' = [p, q] \<and> timestamp_ns p = 2000000250 \<and> timestamp_ns q = 1000000000
          \<and> diag st' = [(''sendto UDP'', 101)]"
    unfolding l g using s d tp tq'
    by (simp add: start_state_def good_read_def unsent_read_def)
  then show ?thesis using w valid_example_frame r b n by blast
qed



text \<open>
  C9. The packets sent during a run carry, in order, the 64-bit nanosecond timestamps
  taken at the complete reads, unchanged. So when these timestamps are non-decreasing,
  the \<open>timestamp_ns\<close> values of the packets sent are non-decreasing.
\<close>

theorem timestamps_non_decreasing:
  assumes "wf_packet (pkt st)" and "\<forall>ev \<in> set evs. valid_event c ev"
    and "sorted (map (\<lambda>ev. timestamp_of (clock_ts ev)) (filter (full_read c) evs))"
  shows "\<exists>st' new. gateway_loop c evs st = Inr st' \<and> sent st' = sent st @ new
           \<and> map timestamp_ns new
               = map (\<lambda>ev. timestamp_of (clock_ts ev)) (filter (full_read c) evs)
           \<and> sorted (map timestamp_ns new)"
proof -
  from loop_valid [OF assms(1,2)] obtain st' new where
    l: "gateway_loop c evs st = Inr st'" and s: "sent st' = sent st @ new"
    and m: "map timestamp_ns new = map (\<lambda>ev. timestamp_of (clock_ts ev)) (filter (full_read c) evs)"
    by blast
  have "sorted (map timestamp_ns new)" using assms(3) by (simp add: m)
  with l s m show ?thesis by blast
qed

theorem timestamps_non_decreasing_witness:
  "wf_packet (pkt start_state)
   \<and> valid_event linux_consts good_read \<and> valid_event linux_consts short_read
   \<and> valid_event linux_consts unsent_read
   \<and> sorted (map (\<lambda>ev. timestamp_of (clock_ts ev))
        (filter (full_read linux_consts) [good_read, short_read, unsent_read]))
   \<and> (\<exists>st'. gateway_loop linux_consts [good_read, short_read, unsent_read] start_state = Inr st'
          \<and> map timestamp_ns (sent st') = [1000000000, 2000000250])"
proof -
  have w: "wf_packet (pkt start_state)" by (simp add: start_state_def wf_stale_packet)
  have fr: "full_read linux_consts good_read" "\<not> full_read linux_consts short_read"
    "full_read linux_consts unsent_read"
    by (simp_all add: full_read_def good_read_def short_read_def unsent_read_def linux_consts_def)
  have v: "\<forall>ev \<in> set [good_read, short_read, unsent_read]. valid_event linux_consts ev"
    using fr valid_example_frame by (simp add: valid_event_def good_read_def unsent_read_def)
  have t: "timestamp_of (clock_ts good_read) = 1000000000"
    "timestamp_of (clock_ts unsent_read) = 2000000250"
    by (simp_all add: timestamp_of_def good_read_def unsent_read_def)
  have so: "sorted (map (\<lambda>ev. timestamp_of (clock_ts ev))
        (filter (full_read linux_consts) [good_read, short_read, unsent_read]))"
    using fr by (simp add: t)
  have s0: "sent start_state = []" by (simp add: start_state_def)
  show ?thesis
    using timestamps_non_decreasing [OF w v so] w v so fr by (auto simp add: t s0)
qed

text \<open>
  C10. The translation makes no bounds check on the frame's length. For a length of at
  most 64 the copy stays inside the 64-byte \<open>data\<close> buffer and the translation
  succeeds; for a longer length the copy is still attempted and runs past the buffer.
  That the length is at most 64 is a precondition, not something the translator enforces.
\<close>

theorem length_not_checked:
  assumes "wf_packet p0" and "wf_frame f"
  shows "(unat (frame_len f) \<le> 64 \<longrightarrow>
            (\<exists>p. translate c f ts p0 = Inr p \<and> length (data p) = 64
               \<and> copy_payload f (replicate 64 0) = Inr (data p)))
         \<and> (64 < unat (frame_len f) \<longrightarrow>
              copy_payload f (replicate 64 0) = Inl OutOfBounds
              \<and> translate c f ts p0 = Inl OutOfBounds)"
proof (intro conjI impI)
  assume le: "unat (frame_len f) \<le> 64"
  then have v: "valid_frame f" using assms(2) by (simp add: valid_frame_def)
  from translate_fields [OF assms(1) v, of c ts] obtain p where
    p: "translate c f ts p0 = Inr p"
    and da: "data p = take (unat (frame_len f)) (frame_data f)
                       @ replicate (64 - unat (frame_len f)) 0"
    by blast
  have w: "wf_packet p" using translate_wf [OF assms(1) v p] .
  have "copy_data f (replicate 64 0) = Inr (data p)"
    using copy_data_ok [of "replicate 64 0" f] assms(2) le by (simp add: da wf_frame_def)
  then have "copy_payload f (replicate 64 0) = Inr (data p)"
    by (simp add: copy_data_def memset_bytes_def)
  with p w show "\<exists>p. translate c f ts p0 = Inr p \<and> length (data p) = 64
               \<and> copy_payload f (replicate 64 0) = Inr (data p)"
    by (auto simp add: wf_packet_def)
next
  assume gt: "64 < unat (frame_len f)"
  then have pos: "0 < frame_len f" by (simp add: word_greater_zero_iff unat_gt_0 [symmetric])
  show cp: "copy_payload f (replicate 64 0) = Inl OutOfBounds"
    using gt pos by (simp add: copy_payload_def memcpy_bytes_def)
  show "translate c f ts p0 = Inl OutOfBounds"
    using assms(1) cp
    by (simp add: translate_def Let_def copy_data_def memset_bytes_def wf_packet_def)
qed

theorem length_not_checked_witness:
  "wf_packet stale_packet \<and> wf_frame (example_frame\<lparr>frame_len := 65\<rparr>)
   \<and> unat (frame_len example_frame) \<le> 64
   \<and> (\<exists>p. translate linux_consts example_frame 7 stale_packet = Inr p \<and> length (data p) = 64)
   \<and> 64 < unat (frame_len (example_frame\<lparr>frame_len := 65\<rparr>))
   \<and> translate linux_consts (example_frame\<lparr>frame_len := 65\<rparr>) 7 stale_packet = Inl OutOfBounds"
proof -
  have wf: "wf_frame example_frame" "wf_frame (example_frame\<lparr>frame_len := 65\<rparr>)"
    using valid_example_frame by (simp_all add: valid_frame_def wf_frame_def)
  have le: "unat (frame_len example_frame) \<le> 64" by (simp add: example_frame_def)
  have gt: "64 < unat (frame_len (example_frame\<lparr>frame_len := 65\<rparr>))" by simp
  show ?thesis
    using length_not_checked [OF wf_stale_packet wf(1), of linux_consts 7]
      length_not_checked [OF wf_stale_packet wf(2), of linux_consts 7] le gt
    by (auto simp add: wf_stale_packet wf)
qed

end
